theory Spec2Isabelle
  imports Main
begin

section \<open>Data model (supabase/migrations, src/server/resolvers.ts)\<close>

text \<open>
  The resolvers of \<^verbatim>\<open>src/server/resolvers.ts\<close> are request handlers over four tables of
  the relational store and one private storage bucket. A table is the list of its rows,
  the bucket a map from object path to the object's bytes. Every handler takes the state
  and returns its outcome together with the state it leaves behind; a thrown
  \<^verbatim>\<open>GraphQLError\<close> is the \<open>Inl\<close> branch of the outcome.

  One request is served at a time, and the store and the identity service always answer:
  a resolver's \<^verbatim>\<open>error\<close> branches are reached through what the query says (no row, more
  than one row, a violated key), not through an outage.

  Strings that only travel through the handlers (ids, tokens, hashes, paths) are
  \<^typ>\<open>string\<close>; the raw filename, whose non-ASCII characters the sanitizer looks at, is
  a list of UTF-16 code units. Timestamps are milliseconds as \<^typ>\<open>nat\<close>; \<open>version\<close> and
  \<open>size\<close> are \<^typ>\<open>int\<close> (the store's 32-bit range is not reached by any property below).
\<close>

datatype code =
  UNAUTHENTICATED | NOT_FOUND | BAD_REQUEST | INTERNAL_ERROR | INTEGRITY_ERROR | VERSION_CONFLICT

text \<open>
  A handler fails with a \<^verbatim>\<open>GraphQLError\<close> (message and extension code) or, where it
  destructures the \<^verbatim>\<open>data\<close> of a storage answer that carries none, with JavaScript's
  \<^verbatim>\<open>TypeError\<close>.
\<close>

datatype error = GraphQLError string code | TypeError

datatype status = draft | uploading | ready | corrupt

record asset =
  a_id :: string
  a_owner_id :: string
  a_filename :: string
  a_mime :: string
  a_size :: int
  a_storage_path :: string
  a_sha256 :: "string option"
  a_status :: status
  a_version :: int
  a_created_at :: nat
  a_updated_at :: nat

record asset_share =
  s_asset_id :: string
  s_to_user :: string
  s_can_download :: bool

record upload_ticket =
  t_asset_id :: string
  t_user_id :: string
  t_nonce :: string
  t_mime :: string
  t_size :: int
  t_storage_path :: string
  t_expires_at :: nat
  t_used :: bool

record download_audit =
  d_asset_id :: string
  d_user_id :: string
  d_at :: nat

text \<open>Requests the handlers send to the storage side, in the order they are sent.\<close>

datatype storage_call =
  CreateSignedUrl string nat
  | CreateSignedUploadUrl string
  | Remove "string list"
  | HashObject string

record state =
  asset_tbl :: "asset list"
  asset_share_tbl :: "asset_share list"
  upload_ticket_tbl :: "upload_ticket list"
  download_audit_tbl :: "download_audit list"
  bucket :: "string \<rightharpoonup> nat list"
  storage_log :: "storage_call list"

text \<open>
  The collaborators the handlers call but the repository does not implement: the identity
  service behind \<^verbatim>\<open>supabase.auth.getUser\<close>, the two URL signers of the storage client,
  the digest the hash function applies to an object's bytes, JavaScript's
  \<^verbatim>\<open>String.prototype.normalize('NFD')\<close> and the store's \<^verbatim>\<open>ILIKE\<close> operator (pattern first).
\<close>

record env =
  getUser :: "string \<Rightarrow> string option"
  createSignedUrl :: "string \<Rightarrow> nat \<Rightarrow> string option"
  createSignedUploadUrl :: "string \<Rightarrow> string option"
  sha256_hex :: "nat list \<Rightarrow> string"
  normalizeNFD :: "nat list \<Rightarrow> nat list"
  ilike :: "string \<Rightarrow> string \<Rightarrow> bool"

text \<open>What a resolver returns for an asset: \<^verbatim>\<open>{ ...asset, isOwner, canDownload }\<close>.\<close>

record asset_view =
  row :: asset
  isOwner :: bool
  canDownload :: bool

section \<open>The store's query primitives\<close>

text \<open>
  \<^verbatim>\<open>.single()\<close> answers with the row when the query yields exactly one, with an error
  otherwise.
\<close>

fun single :: "'a list \<Rightarrow> 'a option" where
  "single [x] = Some x"
| "single _ = None"

text \<open>\<^verbatim>\<open>.update(v).eq(...)\<close>: every row the filter selects is rewritten.\<close>

definition update_where :: "('a \<Rightarrow> bool) \<Rightarrow> ('a \<Rightarrow> 'a) \<Rightarrow> 'a list \<Rightarrow> 'a list" where
  "update_where P f rows = map (\<lambda>r. if P r then f r else r) rows"

text \<open>
  \<^verbatim>\<open>.update(v).eq(...).select().single()\<close>: the store answers with the rewritten row when
  exactly one row was selected; with any other number of rows it answers with an error and
  the statement has no effect.
\<close>

definition update_single ::
  "('a \<Rightarrow> bool) \<Rightarrow> ('a \<Rightarrow> 'a) \<Rightarrow> 'a list \<Rightarrow> 'a option \<times> 'a list" where
  "update_single P f rows =
     (case single (filter P rows) of
        None \<Rightarrow> (None, rows)
      | Some r \<Rightarrow> (Some (f r), update_where P f rows))"

section \<open>Helpers of the resolvers\<close>

definition getUserFromToken :: "env \<Rightarrow> string \<Rightarrow> error + string" where
  "getUserFromToken e token =
     (case getUser e token of
        None \<Rightarrow> Inl (GraphQLError ''Unauthorized'' UNAUTHENTICATED)
      | Some user \<Rightarrow> Inr user)"

text \<open>
  Modelled from the spec: the edge function \<^verbatim>\<open>hash-object\<close> (the Blob Gateway's
  \<^verbatim>\<open>hashObject(path) -> (hash, size) | NotFound\<close>) is not among the sources. It answers
  with the digest of the bytes stored at the path, and with a failure when the bucket
  holds no object there.
\<close>

definition hashObject :: "env \<Rightarrow> state \<Rightarrow> string \<Rightarrow> string option" where
  "hashObject e st path = map_option (sha256_hex e) (bucket st path)"

section \<open>finalizeUpload\<close>

text \<open>The two unguarded updates \<^verbatim>\<open>{ status: 'corrupt', version: version + 1 }\<close>.\<close>

definition mark_corrupt :: "nat \<Rightarrow> string \<Rightarrow> int \<Rightarrow> asset list \<Rightarrow> asset list" where
  "mark_corrupt db_now assetId version rows =
     update_where (\<lambda>a. a_id a = assetId)
       (\<lambda>a. a\<lparr>a_status := corrupt, a_version := version + 1, a_updated_at := db_now\<rparr>) rows"

text \<open>
  \<open>now\<close> is the handler's clock (\<^verbatim>\<open>new Date()\<close>), \<open>db_now\<close> the store's \<^verbatim>\<open>now()\<close> that
  the \<^verbatim>\<open>updated_at\<close> trigger writes.
\<close>

definition finalizeUpload ::
  "env \<Rightarrow> state \<Rightarrow> string \<Rightarrow> nat \<Rightarrow> nat \<Rightarrow> string \<Rightarrow> string \<Rightarrow> int
     \<Rightarrow> (error + asset_view) \<times> state" where
  "finalizeUpload e st token now db_now assetId clientSha256 version =
     (case getUserFromToken e token of
        Inl err \<Rightarrow> (Inl err, st)
      | Inr user \<Rightarrow>
     (case single (filter (\<lambda>t. t_asset_id t = assetId \<and> t_user_id t = user)
                     (upload_ticket_tbl st)) of
        None \<Rightarrow> (Inl (GraphQLError ''Invalid or used upload ticket'' BAD_REQUEST), st)
      | Some ticket \<Rightarrow>
          if t_used ticket
          then (Inl (GraphQLError ''Invalid or used upload ticket'' BAD_REQUEST), st)
          else if now > t_expires_at ticket
          then (Inl (GraphQLError ''Upload ticket expired'' BAD_REQUEST), st)
          else
            let st1 = st\<lparr>upload_ticket_tbl :=
                           update_where (\<lambda>t. t_asset_id t = assetId) (\<lambda>t. t\<lparr>t_used := True\<rparr>)
                             (upload_ticket_tbl st),
                         storage_log := storage_log st @ [HashObject (t_storage_path ticket)]\<rparr>
            in (case hashObject e st (t_storage_path ticket) of
                  None \<Rightarrow>
                    (Inl (GraphQLError ''File verification failed'' INTEGRITY_ERROR),
                     st1\<lparr>asset_tbl := mark_corrupt db_now assetId version (asset_tbl st1)\<rparr>)
                | Some serverSha256 \<Rightarrow>
                    if clientSha256 \<noteq> serverSha256
                    then
                      (Inl (GraphQLError ''Hash mismatch - file integrity check failed''
                              INTEGRITY_ERROR),
                       st1\<lparr>asset_tbl := mark_corrupt db_now assetId version (asset_tbl st1)\<rparr>)
                    else
                      (case update_single (\<lambda>a. a_id a = assetId \<and> a_version a = version)
                              (\<lambda>a. a\<lparr>a_status := ready, a_sha256 := Some serverSha256,
                                      a_version := version + 1, a_updated_at := db_now\<rparr>)
                              (asset_tbl st1) of
                         (None, _) \<Rightarrow>
                           (Inl (GraphQLError ''Version conflict - asset was modified''
                                   VERSION_CONFLICT), st1)
                       | (Some a, rows) \<Rightarrow>
                           (Inr \<lparr>row = a, isOwner = True, canDownload = True\<rparr>,
                            st1\<lparr>asset_tbl := rows\<rparr>)))))"

section \<open>sanitizeFilename and generateStoragePath\<close>

text \<open>The character class \<^verbatim>\<open>[a-zA-Z0-9.-]\<close>, on UTF-16 code units.\<close>

definition safe_unit :: "nat \<Rightarrow> bool" where
  "safe_unit c \<longleftrightarrow>
     (97 \<le> c \<and> c \<le> 122) \<or> (65 \<le> c \<and> c \<le> 90) \<or> (48 \<le> c \<and> c \<le> 57) \<or> c = 46 \<or> c = 45"

text \<open>\<^verbatim>\<open>.replace(/\.{2,}/g, '.')\<close>: a run of two or more dots becomes one dot.\<close>

fun collapse_dots :: "nat list \<Rightarrow> nat list" where
  "collapse_dots (a # b # cs) =
     (if a = 46 \<and> b = 46 then collapse_dots (b # cs) else a # collapse_dots (b # cs))"
| "collapse_dots cs = cs"

definition sanitizeFilename :: "env \<Rightarrow> nat list \<Rightarrow> string" where
  "sanitizeFilename e filename =
     map char_of
       (take 255
         (collapse_dots
           (map (\<lambda>c. if safe_unit c then c else 95)
             (filter (\<lambda>c. \<not> (768 \<le> c \<and> c \<le> 879)) (normalizeNFD e filename)))))"

text \<open>\<^verbatim>\<open>String(n)\<close> of a natural number and \<^verbatim>\<open>padStart\<close>.\<close>

fun String_of :: "nat \<Rightarrow> string" where
  "String_of n =
     (if n < 10 then [char_of (48 + n)] else String_of (n div 10) @ [char_of (48 + n mod 10)])"

declare String_of.simps [simp del]

definition padStart :: "nat \<Rightarrow> char \<Rightarrow> string \<Rightarrow> string" where
  "padStart n c s = replicate (n - length s) c @ s"

text \<open>The two fields of \<^verbatim>\<open>new Date()\<close> the path uses; \<open>getMonth\<close> counts from 0.\<close>

record date =
  getFullYear :: nat
  getMonth :: nat

text \<open>
  \<open>uuid\<close> is what the call of \<^verbatim>\<open>uuidv4()\<close> inside \<^verbatim>\<open>generateStoragePath\<close> returns, \<open>today\<close>
  what its \<^verbatim>\<open>new Date()\<close> returns.
\<close>

definition generateStoragePath :: "env \<Rightarrow> date \<Rightarrow> string \<Rightarrow> string \<Rightarrow> nat list \<Rightarrow> string" where
  "generateStoragePath e today uuid userId filename =
     (let year = getFullYear today;
          month = padStart 2 (CHR ''0'') (String_of (getMonth today + 1));
          assetId = uuid;
          safeFilename = sanitizeFilename e filename
      in userId @ ''/'' @ String_of year @ ''/'' @ month @ ''/'' @ assetId @ ''-'' @ safeFilename)"

section \<open>Query.myAssets\<close>

record asset_edge =
  cursor :: nat
  node :: asset_view

record page_info =
  endCursor :: "nat option"
  hasNextPage :: bool

record asset_connection =
  edges :: "asset_edge list"
  pageInfo :: page_info

text \<open>
  \<^verbatim>\<open>.order('created_at', { ascending: false })\<close>. The store leaves the order of rows with
  equal keys open; the model keeps them in reverse table order.
\<close>

definition order_desc :: "asset list \<Rightarrow> asset list" where
  "order_desc rows = rev (sort_key a_created_at rows)"

text \<open>
  \<open>first\<close> is \<open>None\<close> when the argument is absent (the default 50 applies); \<open>after\<close> and
  \<open>q\<close> are \<open>None\<close> when absent, and an empty \<open>q\<close> is falsy like an absent one. A cursor
  is the timestamp it spells, the \<^verbatim>\<open>created_at\<close> of an edge.
\<close>

definition myAssets ::
  "env \<Rightarrow> state \<Rightarrow> string \<Rightarrow> nat option \<Rightarrow> nat option \<Rightarrow> string option
     \<Rightarrow> error + asset_connection" where
  "myAssets e st token first_arg after q =
     (case getUserFromToken e token of
        Inl err \<Rightarrow> Inl err
      | Inr user \<Rightarrow>
          let first = (case first_arg of None \<Rightarrow> 50 | Some n \<Rightarrow> n);
              rows0 = filter (\<lambda>a. a_owner_id a = user) (asset_tbl st);
              rows1 = (case q of
                         None \<Rightarrow> rows0
                       | Some s \<Rightarrow>
                           if s = [] then rows0
                           else filter (\<lambda>a. ilike e (''%'' @ s @ ''%'') (a_filename a)) rows0);
              rows2 = (case after of
                         None \<Rightarrow> rows1
                       | Some c \<Rightarrow> filter (\<lambda>a. a_created_at a > c) rows1);
              assets = take first (order_desc rows2);
              es = map (\<lambda>a. \<lparr>cursor = a_created_at a,
                              node = \<lparr>row = a, isOwner = True,
                                      canDownload = (a_status a = ready)\<rparr>\<rparr>) assets
          in Inr \<lparr>edges = es,
                  pageInfo = \<lparr>endCursor = (if es = [] then None else Some (cursor (last es))),
                              hasNextPage = (length es = first)\<rparr>\<rparr>)"

section \<open>Query.getDownloadUrl\<close>

record download_link =
  l_url :: string
  l_expiresAt :: nat

text \<open>
  The select embeds \<^verbatim>\<open>asset_share!inner(*)\<close>: an inner join, so an asset is in the answer
  only through a share row of its own, and the row must pass
  \<^verbatim>\<open>owner_id = user OR asset_share.to_user = user\<close>. The answer has one object per asset.
\<close>

definition accessible :: "state \<Rightarrow> string \<Rightarrow> asset \<Rightarrow> bool" where
  "accessible st user a \<longleftrightarrow>
     list_ex (\<lambda>s. s_asset_id s = a_id a \<and> (a_owner_id a = user \<or> s_to_user s = user))
       (asset_share_tbl st)"

definition getDownloadUrl ::
  "env \<Rightarrow> state \<Rightarrow> string \<Rightarrow> nat \<Rightarrow> nat \<Rightarrow> string \<Rightarrow> (error + download_link) \<times> state" where
  "getDownloadUrl e st token now db_now assetId =
     (case getUserFromToken e token of
        Inl err \<Rightarrow> (Inl err, st)
      | Inr user \<Rightarrow>
     (case single (filter (\<lambda>a. a_id a = assetId \<and> accessible st user a \<and> a_status a = ready)
                     (asset_tbl st)) of
        None \<Rightarrow> (Inl (GraphQLError ''Asset not found or access denied'' NOT_FOUND), st)
      | Some asset \<Rightarrow>
          let st1 = st\<lparr>storage_log := storage_log st @ [CreateSignedUrl (a_storage_path asset) 90]\<rparr>
          in (case createSignedUrl e (a_storage_path asset) 90 of
                None \<Rightarrow> (Inl TypeError, st1)
              | Some signedUrl \<Rightarrow>
                  if signedUrl = []
                  then (Inl (GraphQLError ''Failed to generate download link'' INTERNAL_ERROR), st1)
                  else
                    (Inr \<lparr>l_url = signedUrl, l_expiresAt = now + 90 * 1000\<rparr>,
                     st1\<lparr>download_audit_tbl := download_audit_tbl st1 @
                            [\<lparr>d_asset_id = assetId, d_user_id = user, d_at = db_now\<rparr>]\<rparr>))))"

section \<open>Mutation.createUploadUrl\<close>

record upload_url =
  u_assetId :: string
  u_storagePath :: string
  u_uploadUrl :: string
  u_expiresAt :: nat
  u_nonce :: string

text \<open>
  What the call draws from outside: the result of \<^verbatim>\<open>uuidv4()\<close> in the resolver, the result
  of \<^verbatim>\<open>uuidv4()\<close> in \<^verbatim>\<open>generateStoragePath\<close>, the hex of \<^verbatim>\<open>crypto.randomBytes(32)\<close>, and
  the clocks (\<^verbatim>\<open>new Date()\<close>, \<^verbatim>\<open>Date.now()\<close>, the store's \<^verbatim>\<open>now()\<close>).
\<close>

record draws =
  uuid_resolver :: string
  uuid_path :: string
  nonce_hex :: string
  today :: date
  date_now :: nat
  store_now :: nat

definition allowedMimes :: "string list" where
  "allowedMimes = [''image/jpeg'', ''image/png'', ''image/gif'', ''image/webp'', ''application/pdf'']"

text \<open>
  An insert fails on a primary-key or unique violation (\<^verbatim>\<open>asset.id\<close>,
  \<^verbatim>\<open>asset.storage_path\<close>; \<^verbatim>\<open>upload_ticket.asset_id\<close>, \<^verbatim>\<open>upload_ticket.nonce\<close>).
\<close>

definition insert_asset :: "asset \<Rightarrow> asset list \<Rightarrow> asset list option" where
  "insert_asset r rows =
     (if list_ex (\<lambda>a. a_id a = a_id r \<or> a_storage_path a = a_storage_path r) rows
      then None else Some (rows @ [r]))"

definition insert_ticket :: "upload_ticket \<Rightarrow> upload_ticket list \<Rightarrow> upload_ticket list option" where
  "insert_ticket r rows =
     (if list_ex (\<lambda>t. t_asset_id t = t_asset_id r \<or> t_nonce t = t_nonce r) rows
      then None else Some (rows @ [r]))"

definition createUploadUrl ::
  "env \<Rightarrow> state \<Rightarrow> string \<Rightarrow> draws \<Rightarrow> nat list \<Rightarrow> string \<Rightarrow> int
     \<Rightarrow> (error + upload_url) \<times> state" where
  "createUploadUrl e st token d filename mime fsize =
     (case getUserFromToken e token of
        Inl err \<Rightarrow> (Inl err, st)
      | Inr user \<Rightarrow>
          if mime \<notin> set allowedMimes
          then (Inl (GraphQLError ''File type not allowed'' BAD_REQUEST), st)
          else if fsize > 50 * 1024 * 1024
          then (Inl (GraphQLError ''File too large'' BAD_REQUEST), st)
          else
            let assetId = uuid_resolver d;
                storagePath = generateStoragePath e (today d) (uuid_path d) user filename;
                nonce = nonce_hex d
            in (case insert_asset
                       \<lparr>a_id = assetId, a_owner_id = user,
                        a_filename = sanitizeFilename e filename, a_mime = mime, a_size = fsize,
                        a_storage_path = storagePath, a_sha256 = None, a_status = draft,
                        a_version = 1, a_created_at = store_now d, a_updated_at = store_now d\<rparr>
                       (asset_tbl st) of
                  None \<Rightarrow> (Inl (GraphQLError ''Failed to create asset'' INTERNAL_ERROR), st)
                | Some assets \<Rightarrow>
                    let st1 = st\<lparr>asset_tbl := assets\<rparr>;
                        expiresAt = date_now d + 10 * 60 * 1000
                    in (case insert_ticket
                               \<lparr>t_asset_id = assetId, t_user_id = user, t_nonce = nonce,
                                t_mime = mime, t_size = fsize, t_storage_path = storagePath,
                                t_expires_at = expiresAt, t_used = False\<rparr>
                               (upload_ticket_tbl st1) of
                          None \<Rightarrow>
                            (Inl (GraphQLError ''Failed to create upload ticket'' INTERNAL_ERROR),
                             st1)
                        | Some tickets \<Rightarrow>
                            let st2 = st1\<lparr>upload_ticket_tbl := tickets,
                                          storage_log := storage_log st1 @
                                            [CreateSignedUploadUrl storagePath]\<rparr>
                            in (case createSignedUploadUrl e storagePath of
                                  None \<Rightarrow> (Inl TypeError, st2)
                                | Some signedUrl \<Rightarrow>
                                    if signedUrl = []
                                    then (Inl (GraphQLError ''Failed to generate upload URL''
                                                 INTERNAL_ERROR), st2)
                                    else
                                      (Inr \<lparr>u_assetId = assetId, u_storagePath = storagePath,
                                            u_uploadUrl = signedUrl, u_expiresAt = expiresAt,
                                            u_nonce = nonce\<rparr>, st2)))))"

section \<open>Mutation.renameAsset and Mutation.deleteAsset\<close>

definition renameAsset ::
  "env \<Rightarrow> state \<Rightarrow> string \<Rightarrow> nat \<Rightarrow> string \<Rightarrow> nat list \<Rightarrow> int
     \<Rightarrow> (error + asset_view) \<times> state" where
  "renameAsset e st token db_now assetId filename version =
     (case getUserFromToken e token of
        Inl err \<Rightarrow> (Inl err, st)
      | Inr user \<Rightarrow>
     (case update_single
             (\<lambda>a. a_id a = assetId \<and> a_owner_id a = user \<and> a_version a = version)
             (\<lambda>a. a\<lparr>a_filename := sanitizeFilename e filename, a_version := version + 1,
                     a_updated_at := db_now\<rparr>)
             (asset_tbl st) of
        (None, _) \<Rightarrow>
          (Inl (GraphQLError ''Version conflict or asset not found'' VERSION_CONFLICT), st)
      | (Some a, rows) \<Rightarrow>
          (Inr \<lparr>row = a, isOwner = True, canDownload = (a_status a = ready)\<rparr>,
           st\<lparr>asset_tbl := rows\<rparr>)))"

text \<open>
  \<^verbatim>\<open>.delete().eq(...)\<close> removes the rows the filter selects and answers without an error
  also when it selects none. The rows of the other three tables that reference a removed
  asset go with it (\<^verbatim>\<open>ON DELETE CASCADE\<close>).
\<close>

definition delete_assets :: "(asset \<Rightarrow> bool) \<Rightarrow> state \<Rightarrow> state" where
  "delete_assets P st =
     (let gone = map a_id (filter P (asset_tbl st))
      in st\<lparr>asset_tbl := filter (\<lambda>a. \<not> P a) (asset_tbl st),
            asset_share_tbl := filter (\<lambda>s. s_asset_id s \<notin> set gone) (asset_share_tbl st),
            upload_ticket_tbl := filter (\<lambda>t. t_asset_id t \<notin> set gone) (upload_ticket_tbl st),
            download_audit_tbl := filter (\<lambda>r. d_asset_id r \<notin> set gone) (download_audit_tbl st)\<rparr>)"

definition deleteAsset ::
  "env \<Rightarrow> state \<Rightarrow> string \<Rightarrow> string \<Rightarrow> int \<Rightarrow> (error + bool) \<times> state" where
  "deleteAsset e st token assetId version =
     (case getUserFromToken e token of
        Inl err \<Rightarrow> (Inl err, st)
      | Inr user \<Rightarrow>
     (case single (map a_storage_path
                     (filter (\<lambda>a. a_id a = assetId \<and> a_owner_id a = user) (asset_tbl st))) of
        None \<Rightarrow> (Inl (GraphQLError ''Asset not found'' NOT_FOUND), st)
      | Some storage_path \<Rightarrow>
          let st1 = st\<lparr>bucket := (bucket st)(storage_path := None),
                       storage_log := storage_log st @ [Remove [storage_path]]\<rparr>;
              st2 = delete_assets
                      (\<lambda>a. a_id a = assetId \<and> a_owner_id a = user \<and> a_version a = version) st1
          in (Inr True, st2)))"

section \<open>Predicates the properties use\<close>

text \<open>A failure whose extension code is \<^verbatim>\<open>BAD_REQUEST\<close>.\<close>

definition is_bad_request :: "error + 'a \<Rightarrow> bool" where
  "is_bad_request r =
     (case r of Inl (GraphQLError m c) \<Rightarrow> c = BAD_REQUEST | Inl TypeError \<Rightarrow> False | Inr x \<Rightarrow> False)"

text \<open>
  A caller with no ownership and no share grant: no asset row of this id is theirs and no
  share row of this id names them. An id no asset has is such an id for every caller.
\<close>

definition no_claim :: "state \<Rightarrow> string \<Rightarrow> string \<Rightarrow> bool" where
  "no_claim st user assetId \<longleftrightarrow>
     \<not> list_ex (\<lambda>a. a_id a = assetId \<and> a_owner_id a = user) (asset_tbl st) \<and>
     \<not> list_ex (\<lambda>s. s_asset_id s = assetId \<and> s_to_user s = user) (asset_share_tbl st)"

text \<open>
  Every ticket belongs to the owner of its asset: \<open>createUploadUrl\<close> writes the same user
  into the asset row and the ticket row, and the ticket references its asset.
\<close>

definition tickets_bound :: "state \<Rightarrow> bool" where
  "tickets_bound st \<longleftrightarrow>
     list_all (\<lambda>t. list_ex (\<lambda>a. a_id a = t_asset_id t \<and> a_owner_id a = t_user_id t) (asset_tbl st))
       (upload_ticket_tbl st)"

text \<open>The ids of the assets on a page, in the order of the page.\<close>

definition ids_of :: "error + asset_connection \<Rightarrow> string list" where
  "ids_of r = (case r of Inl err \<Rightarrow> [] | Inr c \<Rightarrow> map (\<lambda>ed. a_id (row (node ed))) (edges c))"

text \<open>Every ticket of the asset is marked used.\<close>

definition spent :: "state \<Rightarrow> string \<Rightarrow> bool" where
  "spent st assetId \<longleftrightarrow>
     list_all t_used (filter (\<lambda>t. t_asset_id t = assetId) (upload_ticket_tbl st))"

section \<open>A small store to run the handlers on\<close>

text \<open>
  Two users, Alice and Bob. Alice has asked for an upload ticket for \<^verbatim>\<open>photo.jpg\<close> and
  has uploaded three bytes to the path of the ticket; the digest of these bytes is
  \<^verbatim>\<open>abc\<close>.
\<close>

definition env0 :: env where
  "env0 = \<lparr>getUser = (\<lambda>t. if t = ''tok-alice'' then Some ''alice''
                         else if t = ''tok-bob'' then Some ''bob'' else None),
           createSignedUrl = (\<lambda>p ttl. Some (''https://signed/'' @ p)),
           createSignedUploadUrl = (\<lambda>p. Some (''https://upload/'' @ p)),
           sha256_hex = (\<lambda>bs. if bs = [1, 2, 3] then ''abc'' else ''other''),
           normalizeNFD = (\<lambda>s. s),
           ilike = (\<lambda>p s. True)\<rparr>"

definition asset0 :: asset where
  "asset0 = \<lparr>a_id = ''a1'', a_owner_id = ''alice'', a_filename = ''photo.jpg'',
             a_mime = ''image/jpeg'', a_size = 1000, a_storage_path = ''alice/2025/09/x-photo.jpg'',
             a_sha256 = None, a_status = draft, a_version = 1, a_created_at = 100,
             a_updated_at = 100\<rparr>"

definition ticket0 :: upload_ticket where
  "ticket0 = \<lparr>t_asset_id = ''a1'', t_user_id = ''alice'', t_nonce = ''n1'',
              t_mime = ''image/jpeg'', t_size = 1000,
              t_storage_path = ''alice/2025/09/x-photo.jpg'', t_expires_at = 600100,
              t_used = False\<rparr>"

definition st0 :: state where
  "st0 = \<lparr>asset_tbl = [asset0], asset_share_tbl = [], upload_ticket_tbl = [ticket0],
          download_audit_tbl = [], bucket = [''alice/2025/09/x-photo.jpg'' \<mapsto> [1, 2, 3]],
          storage_log = []\<rparr>"



text \<open>Alice's upload verified: the asset is \<open>ready\<close> at version 2, and nothing is shared.\<close>

definition st_ready :: state where
  "st_ready = snd (finalizeUpload env0 st0 ''tok-alice'' 200 201 ''a1'' ''abc'' 1)"

text \<open>The same store after Alice has given Bob a share row with \<open>can_download = false\<close>.\<close>

definition st_shared :: state where
  "st_shared = st_ready\<lparr>asset_share_tbl :=
     [\<lparr>s_asset_id = ''a1'', s_to_user = ''bob'', s_can_download = False\<rparr>]\<rparr>"

text \<open>The empty store, and what one call of \<open>createUploadUrl\<close> draws.\<close>

definition st_empty :: state where
  "st_empty = \<lparr>asset_tbl = [], asset_share_tbl = [], upload_ticket_tbl = [],
     download_audit_tbl = [], bucket = Map.empty, storage_log = []\<rparr>"

definition draws0 :: draws where
  "draws0 = \<lparr>uuid_resolver = ''id-1'', uuid_path = ''id-2'', nonce_hex = ''c0ffee'',
     today = \<lparr>getFullYear = 2025, getMonth = 8\<rparr>, date_now = 1000, store_now = 1001\<rparr>"

text \<open>Alice owns three assets, created at 100, 200 and 300.\<close>

definition st_three :: state where
  "st_three = st0\<lparr>asset_tbl :=
     [asset0,
      asset0\<lparr>a_id := ''a2'', a_storage_path := ''alice/2025/09/y-two.png'', a_created_at := 200\<rparr>,
      asset0\<lparr>a_id := ''a3'', a_storage_path := ''alice/2025/09/z-three.png'', a_created_at := 300\<rparr>]\<rparr>"

section \<open>Facts about the query primitives\<close>

lemma single_Some: "single xs = Some x \<longleftrightarrow> xs = [x]"
  by (cases xs rule: single.cases) auto


lemma update_single_None:
  "update_single P f rows = (None, rows') \<Longrightarrow> rows' = rows \<and> single (filter P rows) = None"
  by (auto simp: update_single_def split: option.splits)

lemma filter_single_mem: "filter P xs = [x] \<Longrightarrow> x \<in> set xs \<and> P x"
proof -
  assume h: "filter P xs = [x]"
  have "x \<in> set (filter P xs)" by (simp add: h)
  then show ?thesis by simp
qed


text \<open>The definitions a run on the small store unfolds.\<close>

lemmas ex_defs = env0_def st0_def asset0_def ticket0_def
lemmas fin_defs = finalizeUpload_def getUserFromToken_def hashObject_def update_single_def
  update_where_def Let_def


section \<open>Properties of finalizeUpload\<close>



section \<open>Tickets are single-use\<close>

lemma is_bad_request_simps [simp]:
  "is_bad_request (Inl (GraphQLError m c)) \<longleftrightarrow> c = BAD_REQUEST"
  "\<not> is_bad_request (Inl TypeError)"
  "\<not> is_bad_request (Inr x)"
  by (simp_all add: is_bad_request_def)









section \<open>The version guard\<close>

lemmas char_eval = char_of_def bit_Suc_0_iff
lemmas sanitize_defs = sanitizeFilename_def safe_unit_def char_eval




section \<open>Who gets a download link\<close>

lemmas dl_defs = getDownloadUrl_def getUserFromToken_def accessible_def Let_def

lemma st_ready_eq:
  "st_ready = st0\<lparr>asset_tbl := [asset0\<lparr>a_sha256 := Some ''abc'', a_status := ready,
                                        a_version := 2, a_updated_at := 201\<rparr>],
                  upload_ticket_tbl := [ticket0\<lparr>t_used := True\<rparr>],
                  storage_log := [HashObject ''alice/2025/09/x-photo.jpg'']\<rparr>"
  by (simp add: st_ready_def ex_defs fin_defs)


text \<open>
  No handler reads \<open>can_download\<close>: Bob, whose share row has \<open>can_download = false\<close>, gets
  a link.
\<close>

lemma getDownloadUrl_ignores_can_download:
  "fst (getDownloadUrl env0 st_shared ''tok-bob'' 300 301 ''a1'') =
     Inr \<lparr>l_url = ''https://signed/alice/2025/09/x-photo.jpg'', l_expiresAt = 90300\<rparr>"
  by (simp add: st_shared_def st_ready_eq ex_defs dl_defs)

section \<open>Callers without a claim on the asset\<close>

lemma getDownloadUrl_no_claim:
  assumes "getUser e token = Some user" "no_claim st user assetId"
  shows "getDownloadUrl e st token now db_now assetId =
           (Inl (GraphQLError ''Asset not found or access denied'' NOT_FOUND), st)"
proof -
  have "filter (\<lambda>a. a_id a = assetId \<and> accessible st user a \<and> a_status a = ready) (asset_tbl st) = []"
    using assms(2) by (auto simp: no_claim_def accessible_def list_ex_iff filter_empty_conv)
  then show ?thesis using assms(1) by (simp add: getDownloadUrl_def getUserFromToken_def)
qed

lemma finalizeUpload_no_claim:
  assumes "getUser e token = Some user" "no_claim st user assetId" "tickets_bound st"
  shows "finalizeUpload e st token now db_now assetId h version =
           (Inl (GraphQLError ''Invalid or used upload ticket'' BAD_REQUEST), st)"
proof -
  have "filter (\<lambda>t. t_asset_id t = assetId \<and> t_user_id t = user) (upload_ticket_tbl st) = []"
    using assms(2,3)
    by (fastforce simp: no_claim_def tickets_bound_def list_ex_iff list_all_iff filter_empty_conv)
  then show ?thesis using assms(1) by (simp add: finalizeUpload_def getUserFromToken_def)
qed

section \<open>The handlers keep tickets bound to the owner\<close>

lemma tickets_bound_iff:
  "tickets_bound st \<longleftrightarrow>
     (\<lambda>t. (t_asset_id t, t_user_id t)) ` set (upload_ticket_tbl st)
       \<subseteq> (\<lambda>a. (a_id a, a_owner_id a)) ` set (asset_tbl st)"
  by (force simp: tickets_bound_def list_all_iff list_ex_iff)

lemma update_where_keys:
  assumes "\<And>x. k (f x) = k x"
  shows "k ` set (update_where P f xs) = k ` set xs"
proof -
  have "map k (update_where P f xs) = map k xs"
    by (induction xs) (simp_all add: update_where_def assms)
  then have "set (map k (update_where P f xs)) = set (map k xs)" by simp
  then show ?thesis by simp
qed

lemma tickets_bound_empty:
  "tickets_bound \<lparr>asset_tbl = [], asset_share_tbl = [], upload_ticket_tbl = [],
     download_audit_tbl = [], bucket = Map.empty, storage_log = []\<rparr>"
  by (simp add: tickets_bound_def)

lemma tickets_bound_finalizeUpload:
  assumes "tickets_bound st"
  shows "tickets_bound (snd (finalizeUpload e st token now db_now assetId h version))"
proof -
  let ?k = "\<lambda>a. (a_id a, a_owner_id a)" and ?kt = "\<lambda>t. (t_asset_id t, t_user_id t)"
  let ?st' = "snd (finalizeUpload e st token now db_now assetId h version)"
  have t: "?kt ` set (upload_ticket_tbl ?st') = ?kt ` set (upload_ticket_tbl st)"
    by (auto simp: finalizeUpload_def Let_def update_single_def update_where_keys
        split: sum.splits option.splits)
  have a: "?k ` set (asset_tbl ?st') = ?k ` set (asset_tbl st)"
    by (auto simp: finalizeUpload_def Let_def update_single_def mark_corrupt_def update_where_keys
        split: sum.splits option.splits)
  show ?thesis using assms unfolding tickets_bound_iff t a .
qed

lemma tickets_bound_renameAsset:
  assumes "tickets_bound st"
  shows "tickets_bound (snd (renameAsset e st token db_now assetId filename version))"
proof -
  let ?k = "\<lambda>a. (a_id a, a_owner_id a)" and ?kt = "\<lambda>t. (t_asset_id t, t_user_id t)"
  let ?st' = "snd (renameAsset e st token db_now assetId filename version)"
  have t: "upload_ticket_tbl ?st' = upload_ticket_tbl st"
    by (auto simp: renameAsset_def update_single_def split: sum.splits option.splits)
  have a: "?k ` set (asset_tbl ?st') = ?k ` set (asset_tbl st)"
    by (auto simp: renameAsset_def update_single_def update_where_keys
        split: sum.splits option.splits)
  show ?thesis using assms unfolding tickets_bound_iff t a .
qed

lemma tickets_bound_getDownloadUrl:
  assumes "tickets_bound st"
  shows "tickets_bound (snd (getDownloadUrl e st token now db_now assetId))"
proof -
  let ?st' = "snd (getDownloadUrl e st token now db_now assetId)"
  have "upload_ticket_tbl ?st' = upload_ticket_tbl st" "asset_tbl ?st' = asset_tbl st"
    by (auto simp: getDownloadUrl_def Let_def split: sum.splits option.splits)
  then show ?thesis using assms by (simp add: tickets_bound_def)
qed

lemma tickets_bound_createUploadUrl:
  assumes b: "tickets_bound st"
  shows "tickets_bound (snd (createUploadUrl e st token d filename mime fsize))"
proof (cases "getUser e token")
  case None
  then show ?thesis using b by (simp add: createUploadUrl_def getUserFromToken_def)
next
  case (Some user)
  let ?path = "generateStoragePath e (today d) (uuid_path d) user filename"
  let ?a = "\<lparr>a_id = uuid_resolver d, a_owner_id = user,
                        a_filename = sanitizeFilename e filename, a_mime = mime, a_size = fsize,
                        a_storage_path = ?path, a_sha256 = None, a_status = draft,
                        a_version = 1, a_created_at = store_now d, a_updated_at = store_now d\<rparr>"
  let ?t = "\<lparr>t_asset_id = uuid_resolver d, t_user_id = user, t_nonce = nonce_hex d,
                                t_mime = mime, t_size = fsize, t_storage_path = ?path,
                                t_expires_at = date_now d + 10 * 60 * 1000, t_used = False\<rparr>"
  let ?st' = "snd (createUploadUrl e st token d filename mime fsize)"
  have "(asset_tbl ?st' = asset_tbl st \<and> upload_ticket_tbl ?st' = upload_ticket_tbl st) \<or>
        (asset_tbl ?st' = asset_tbl st @ [?a] \<and>
          (upload_ticket_tbl ?st' = upload_ticket_tbl st \<or>
           upload_ticket_tbl ?st' = upload_ticket_tbl st @ [?t]))"
    using Some
    by (simp add: createUploadUrl_def getUserFromToken_def Let_def insert_asset_def
        insert_ticket_def split: option.splits)
  then show ?thesis using b
    by (auto simp: tickets_bound_def list_all_iff list_ex_iff)
qed

lemma delete_assets_bound:
  assumes b: "tickets_bound st"
  shows "tickets_bound (delete_assets P st)"
proof -
  have "\<exists>a \<in> set (asset_tbl st). \<not> P a \<and> a_id a = t_asset_id t \<and> a_owner_id a = t_user_id t"
    if t: "t \<in> set (upload_ticket_tbl st)"
      and keep: "t_asset_id t \<notin> a_id ` {a \<in> set (asset_tbl st). P a}" for t
  proof -
    from b t obtain a where a: "a \<in> set (asset_tbl st)" "a_id a = t_asset_id t"
      "a_owner_id a = t_user_id t"
      by (auto simp: tickets_bound_def list_all_iff list_ex_iff)
    have "\<not> P a"
    proof
      assume "P a"
      with a(1) have "a_id a \<in> a_id ` {a \<in> set (asset_tbl st). P a}" by blast
      with keep a(2) show False by simp
    qed
    with a show ?thesis by blast
  qed
  then show ?thesis
    by (auto simp: tickets_bound_def delete_assets_def list_all_iff list_ex_iff Let_def)
qed

lemma tickets_bound_deleteAsset:
  assumes b: "tickets_bound st"
  shows "tickets_bound (snd (deleteAsset e st token assetId version))"
proof (cases "getUser e token")
  case None
  then show ?thesis using b by (simp add: deleteAsset_def getUserFromToken_def)
next
  case (Some user)
  show ?thesis
  proof (cases "single (map a_storage_path
                     (filter (\<lambda>a. a_id a = assetId \<and> a_owner_id a = user) (asset_tbl st)))")
    case None
    then show ?thesis using b Some by (simp add: deleteAsset_def getUserFromToken_def)
  next
    case (Some p)
    let ?st1 = "st\<lparr>bucket := (bucket st)(p := None), storage_log := storage_log st @ [Remove [p]]\<rparr>"
    have "tickets_bound ?st1" using b by (simp add: tickets_bound_def)
    then have "tickets_bound (delete_assets
       (\<lambda>a. a_id a = assetId \<and> a_owner_id a = user \<and> a_version a = version) ?st1)"
      by (rule delete_assets_bound)
    then show ?thesis using Some \<open>getUser e token = Some user\<close>
      by (simp add: deleteAsset_def getUserFromToken_def Let_def)
  qed
qed

text \<open>
  C5, as stated, fails for \<open>finalizeUpload\<close>: Bob has no ownership of Alice's asset and no
  share grant, and his call fails with \<^verbatim>\<open>BAD_REQUEST\<close>, not with \<^verbatim>\<open>NOT_FOUND\<close>.
\<close>

theorem no_claim_finalizeUpload_bad_request:
  "no_claim st0 ''bob'' ''a1'' \<and> getUser env0 ''tok-bob'' = Some ''bob'' \<and>
   fst (finalizeUpload env0 st0 ''tok-bob'' 200 201 ''a1'' ''abc'' 1) =
     Inl (GraphQLError ''Invalid or used upload ticket'' BAD_REQUEST) \<and>
   \<not> (\<exists>m. fst (finalizeUpload env0 st0 ''tok-bob'' 200 201 ''a1'' ''abc'' 1) =
     Inl (GraphQLError m NOT_FOUND))"
  by (simp add: no_claim_def ex_defs fin_defs)

text \<open>
  C5, amended. For a caller with no ownership and no share grant on an asset id,
  \<open>getDownloadUrl\<close> fails with \<^verbatim>\<open>NOT_FOUND\<close> and the message
  \<^verbatim>\<open>Asset not found or access denied\<close>, and, in a store whose tickets are bound to the
  owners, \<open>finalizeUpload\<close> fails with \<^verbatim>\<open>BAD_REQUEST\<close> and the message
  \<^verbatim>\<open>Invalid or used upload ticket\<close>. Both leave the state unchanged, and both answers
  are the same for an asset of another user and for an id that no asset has.
\<close>

theorem no_claim_same_answer:
  "(getUser e token = Some user \<and> no_claim st user assetId \<longrightarrow>
      getDownloadUrl e st token now db_now assetId =
        (Inl (GraphQLError ''Asset not found or access denied'' NOT_FOUND), st)) \<and>
   (getUser e token = Some user \<and> no_claim st user assetId \<and> tickets_bound st \<longrightarrow>
      finalizeUpload e st token now db_now assetId h version =
        (Inl (GraphQLError ''Invalid or used upload ticket'' BAD_REQUEST), st))"
  using getDownloadUrl_no_claim finalizeUpload_no_claim by blast

theorem no_claim_same_answer_witness:
  "getUser env0 ''tok-bob'' = Some ''bob'' \<and> no_claim st0 ''bob'' ''a1'' \<and> tickets_bound st0 \<and>
   getDownloadUrl env0 st0 ''tok-bob'' 200 201 ''a1'' =
     (Inl (GraphQLError ''Asset not found or access denied'' NOT_FOUND), st0) \<and>
   finalizeUpload env0 st0 ''tok-bob'' 200 201 ''a1'' ''abc'' 1 =
     (Inl (GraphQLError ''Invalid or used upload ticket'' BAD_REQUEST), st0)"
proof -
  have h: "getUser env0 ''tok-bob'' = Some ''bob''" "no_claim st0 ''bob'' ''a1''" "tickets_bound st0"
    by (simp_all add: no_claim_def tickets_bound_def ex_defs)
  with no_claim_same_answer [of env0 "''tok-bob''" "''bob''" st0 "''a1''" 200 201 "''abc''" 1]
  show ?thesis by simp
qed

section \<open>The storage path\<close>

lemmas path_defs = generateStoragePath_def padStart_def String_of.simps Let_def
lemmas create_defs = createUploadUrl_def getUserFromToken_def allowedMimes_def insert_asset_def
  insert_ticket_def

lemma generateStoragePath_example:
  "generateStoragePath env0 \<lparr>getFullYear = 2025, getMonth = 8\<rparr> ''id-2'' ''alice''
     [112, 104, 111, 116, 111, 46, 106, 112, 103] = ''alice/2025/09/id-2-photo.jpg''"
  by (simp add: path_defs sanitize_defs env0_def)

lemma env0_alice:
  "getUser env0 ''tok-alice'' = Some ''alice''"
  "createSignedUploadUrl env0 p = Some (''https://upload/'' @ p)"
  "sanitizeFilename env0 [112, 104, 111, 116, 111, 46, 106, 112, 103] = ''photo.jpg''"
  by (simp_all add: env0_def sanitize_defs)

text \<open>
  C6. The claim that the storage path carries the id of the asset the call creates and
  returns does not hold: \<open>createUploadUrl\<close> draws one uuid for the asset and
  \<open>generateStoragePath\<close> draws another for the path. With the draws \<^verbatim>\<open>id-1\<close> and
  \<^verbatim>\<open>id-2\<close>, the asset created and returned is \<^verbatim>\<open>id-1\<close> and its path is
  \<^verbatim>\<open>alice/2025/09/id-2-photo.jpg\<close>.
\<close>

theorem createUploadUrl_path_other_uuid:
  "map_sum id (\<lambda>u. (u_assetId u, u_storagePath u))
     (fst (createUploadUrl env0 st_empty ''tok-alice'' draws0
            [112, 104, 111, 116, 111, 46, 106, 112, 103] ''image/jpeg'' 1000)) =
     Inr (''id-1'', ''alice/2025/09/id-2-photo.jpg'') \<and>
   map (\<lambda>a. (a_id a, a_storage_path a))
     (asset_tbl (snd (createUploadUrl env0 st_empty ''tok-alice'' draws0
            [112, 104, 111, 116, 111, 46, 106, 112, 103] ''image/jpeg'' 1000))) =
     [(''id-1'', ''alice/2025/09/id-2-photo.jpg'')]"
  by (simp add: create_defs Let_def generateStoragePath_example env0_alice st_empty_def draws0_def)

section \<open>Deleting with a stale version\<close>

text \<open>
  C7. The claim that \<open>deleteAsset\<close> with a stale expected version fails with
  \<^verbatim>\<open>VERSION_CONFLICT\<close> and leaves row and blob alone does not hold: the blob is removed
  before the guarded delete, and a delete that selects no row is no error. Alice's asset
  stands at version 1; her call with expected version 7 returns \<open>true\<close>, the row is still
  there and the blob is gone.
\<close>

theorem deleteAsset_stale_version:
  "map a_version (asset_tbl st0) = [1] \<and>
   bucket st0 ''alice/2025/09/x-photo.jpg'' = Some [1, 2, 3] \<and>
   fst (deleteAsset env0 st0 ''tok-alice'' ''a1'' 7) = Inr True \<and>
   asset_tbl (snd (deleteAsset env0 st0 ''tok-alice'' ''a1'' 7)) = asset_tbl st0 \<and>
   bucket (snd (deleteAsset env0 st0 ''tok-alice'' ''a1'' 7)) ''alice/2025/09/x-photo.jpg'' = None"
  by (simp add: deleteAsset_def delete_assets_def getUserFromToken_def Let_def ex_defs)

section \<open>Paging\<close>

lemmas my_defs = myAssets_def getUserFromToken_def order_desc_def Let_def ids_of_def

text \<open>
  C8. The claim that a page requested with a cursor returns no asset of the page already
  seen does not hold: the rows are ordered by creation time descending and the cursor
  filter keeps the rows created after the cursor. With three assets and page size 2, the
  first page is \<^verbatim>\<open>a3, a2\<close> with end cursor 200; the page after that cursor is \<^verbatim>\<open>a3\<close>
  again, and \<^verbatim>\<open>a1\<close> is never reached.
\<close>

theorem myAssets_cursor_repeats:
  "ids_of (myAssets env0 st_three ''tok-alice'' (Some 2) None None) = [''a3'', ''a2''] \<and>
   map_sum id (\<lambda>c. endCursor (pageInfo c))
     (myAssets env0 st_three ''tok-alice'' (Some 2) None None) = Inr (Some 200) \<and>
   ids_of (myAssets env0 st_three ''tok-alice'' (Some 2) (Some 200) None) = [''a3'']"
  by (simp add: my_defs st_three_def ex_defs)

section \<open>Download links\<close>




section \<open>hasNextPage\<close>

lemma length_order_desc: "length (order_desc rows) = length rows"
  by (simp add: order_desc_def)

text \<open>
  C10, as stated, fails in its last clause: the page after a final, full page is not
  empty. Alice owns three assets and asks for pages of three. The first page holds all
  three with \<open>hasNextPage\<close> true and end cursor 100; the page after that cursor holds
  \<^verbatim>\<open>a3\<close> and \<^verbatim>\<open>a2\<close> again.
\<close>

theorem myAssets_full_page_next_not_empty:
  "length (asset_tbl st_three) = 3 \<and>
   ids_of (myAssets env0 st_three ''tok-alice'' (Some 3) None None) = [''a3'', ''a2'', ''a1''] \<and>
   map_sum id (\<lambda>c. (hasNextPage (pageInfo c), endCursor (pageInfo c)))
     (myAssets env0 st_three ''tok-alice'' (Some 3) None None) = Inr (True, Some 100) \<and>
   ids_of (myAssets env0 st_three ''tok-alice'' (Some 3) (Some 100) None) = [''a3'', ''a2'']"
  by (simp add: my_defs st_three_def ex_defs)

text \<open>
  C10, amended. \<open>hasNextPage\<close> is true exactly when the page holds as many assets as the
  page size asks for (50 when no size is given), whether or not a further asset exists. So
  when the caller's assets are exactly as many as the page size, the first page holds all
  of them and \<open>hasNextPage\<close> is still true. Nothing is said of what the page after the
  end cursor holds.
\<close>

theorem myAssets_hasNextPage:
  "(myAssets e st token first_arg after q = Inr c \<longrightarrow>
      hasNextPage (pageInfo c) =
        (length (edges c) = (case first_arg of None \<Rightarrow> 50 | Some n \<Rightarrow> n))) \<and>
   (getUser e token = Some user \<and>
    length (filter (\<lambda>a. a_owner_id a = user) (asset_tbl st)) = n \<and>
    myAssets e st token (Some n) None None = Inr c \<longrightarrow>
      length (edges c) = n \<and> hasNextPage (pageInfo c))"
proof (intro conjI impI)
  assume "myAssets e st token first_arg after q = Inr c"
  then show "hasNextPage (pageInfo c) =
        (length (edges c) = (case first_arg of None \<Rightarrow> 50 | Some n \<Rightarrow> n))"
    by (cases "getUserFromToken e token") (auto simp: myAssets_def Let_def)
next
  assume a: "getUser e token = Some user \<and>
    length (filter (\<lambda>a. a_owner_id a = user) (asset_tbl st)) = n \<and>
    myAssets e st token (Some n) None None = Inr c"
  then have u: "getUserFromToken e token = Inr user" by (simp add: getUserFromToken_def)
  from a have "length (order_desc (filter (\<lambda>a. a_owner_id a = user) (asset_tbl st))) = n"
    by (simp add: length_order_desc)
  with a u have r: "length (edges c) = n \<and> hasNextPage (pageInfo c)"
    by (auto simp: myAssets_def Let_def)
  from r show "length (edges c) = n" ..
  from r show "hasNextPage (pageInfo c)" ..
qed

theorem myAssets_hasNextPage_witness:
  "(\<exists>c. myAssets env0 st_three ''tok-alice'' (Some 3) None None = Inr c \<and>
      length (edges c) = 3 \<and> hasNextPage (pageInfo c)) \<and>
   (\<exists>c. myAssets env0 st_three ''tok-alice'' None None None = Inr c \<and>
      length (edges c) = 3 \<and> \<not> hasNextPage (pageInfo c))"
proof -
  have u: "getUser env0 ''tok-alice'' = Some ''alice''" by (simp add: env0_def)
  have n: "length (filter (\<lambda>a. a_owner_id a = ''alice'') (asset_tbl st_three)) = 3"
    by (simp add: st_three_def ex_defs)
  obtain c where c: "myAssets env0 st_three ''tok-alice'' (Some 3) None None = Inr c"
    by (simp add: myAssets_def getUserFromToken_def env0_def Let_def)
  obtain c' where c': "myAssets env0 st_three ''tok-alice'' None None None = Inr c'"
    and l: "length (edges c') = 3"
    by (simp add: myAssets_def getUserFromToken_def env0_def Let_def length_order_desc
        st_three_def st0_def asset0_def)
  from myAssets_hasNextPage [of env0 st_three "''tok-alice''" "Some 3" None None c "''alice''" 3] u n c
  have 1: "length (edges c) = 3 \<and> hasNextPage (pageInfo c)" by simp
  from myAssets_hasNextPage [of env0 st_three "''tok-alice''" None None None c' "''alice''" 3] c' l
  have 2: "\<not> hasNextPage (pageInfo c')" by simp
  from c c' l 1 2 show ?thesis by simp
qed

section \<open>A spent ticket stays spent\<close>

text \<open>
  No handler clears the \<open>used\<close> flag, so what C2 says of the next call holds after any
  number of calls of any handler in between. \<open>createUploadUrl\<close> writes a ticket only for an
  id it has just inserted as a new asset, so it writes none for an asset that exists.
\<close>

lemma spent_update_used:
  "list_all t_used (filter (\<lambda>t. t_asset_id t = assetId) ts) \<Longrightarrow>
   list_all t_used (filter (\<lambda>t. t_asset_id t = assetId)
     (update_where P (\<lambda>t. t\<lparr>t_used := True\<rparr>) ts))"
  by (auto simp: update_where_def list_all_iff split: if_splits)

lemma spent_finalizeUpload:
  assumes "spent st assetId"
  shows "spent (snd (finalizeUpload e st token now db_now assetId' h version)) assetId"
proof -
  have "upload_ticket_tbl (snd (finalizeUpload e st token now db_now assetId' h version)) =
          upload_ticket_tbl st \<or>
        upload_ticket_tbl (snd (finalizeUpload e st token now db_now assetId' h version)) =
          update_where (\<lambda>t. t_asset_id t = assetId') (\<lambda>t. t\<lparr>t_used := True\<rparr>)
            (upload_ticket_tbl st)"
    by (simp add: finalizeUpload_def Let_def update_single_def
        split: sum.splits option.splits)
  then show ?thesis using assms spent_update_used unfolding spent_def by auto
qed

lemma spent_renameAsset:
  assumes "spent st assetId"
  shows "spent (snd (renameAsset e st token db_now assetId' filename version)) assetId"
proof -
  have "upload_ticket_tbl (snd (renameAsset e st token db_now assetId' filename version)) =
          upload_ticket_tbl st"
    by (simp add: renameAsset_def update_single_def split: sum.splits option.splits)
  then show ?thesis using assms by (simp add: spent_def)
qed

lemma spent_getDownloadUrl:
  assumes "spent st assetId"
  shows "spent (snd (getDownloadUrl e st token now db_now assetId')) assetId"
proof -
  have "upload_ticket_tbl (snd (getDownloadUrl e st token now db_now assetId')) =
          upload_ticket_tbl st"
    by (simp add: getDownloadUrl_def Let_def split: sum.splits option.splits)
  then show ?thesis using assms by (simp add: spent_def)
qed

lemma spent_deleteAsset:
  assumes "spent st assetId"
  shows "spent (snd (deleteAsset e st token assetId' version)) assetId"
proof -
  have "\<exists>Q. upload_ticket_tbl (snd (deleteAsset e st token assetId' version)) =
          filter Q (upload_ticket_tbl st)"
  proof (cases "fst (deleteAsset e st token assetId' version)")
    case (Inl err)
    then have "snd (deleteAsset e st token assetId' version) = st"
      by (auto simp: deleteAsset_def Let_def split: sum.splits option.splits)
    then have "upload_ticket_tbl (snd (deleteAsset e st token assetId' version)) =
          filter (\<lambda>t. True) (upload_ticket_tbl st)" by simp
    then show ?thesis by blast
  next
    case (Inr b)
    then show ?thesis
      by (auto simp: deleteAsset_def Let_def delete_assets_def split: sum.splits option.splits)
  qed
  then obtain Q where "upload_ticket_tbl (snd (deleteAsset e st token assetId' version)) =
          filter Q (upload_ticket_tbl st)" ..
  then show ?thesis using assms by (auto simp: spent_def list_all_iff)
qed

lemma spent_createUploadUrl:
  assumes "spent st assetId" "list_ex (\<lambda>a. a_id a = assetId) (asset_tbl st)"
  shows "spent (snd (createUploadUrl e st token d filename mime fsize)) assetId"
proof (cases "getUser e token")
  case None
  then show ?thesis using assms(1) by (simp add: createUploadUrl_def getUserFromToken_def)
next
  case (Some user)
  show ?thesis
  proof (cases "uuid_resolver d = assetId")
    case True
    with assms(2) have "insert_asset r (asset_tbl st) = None" if "a_id r = uuid_resolver d" for r
      using that by (auto simp: insert_asset_def list_ex_iff)
    then have "snd (createUploadUrl e st token d filename mime fsize) = st"
      using Some by (simp add: createUploadUrl_def getUserFromToken_def Let_def)
    then show ?thesis using assms(1) by simp
  next
    case False
    have "upload_ticket_tbl (snd (createUploadUrl e st token d filename mime fsize)) =
            upload_ticket_tbl st \<or>
          (\<exists>t. t_asset_id t = uuid_resolver d \<and>
            upload_ticket_tbl (snd (createUploadUrl e st token d filename mime fsize)) =
              upload_ticket_tbl st @ [t])"
      using Some
      by (simp add: createUploadUrl_def getUserFromToken_def Let_def insert_asset_def
          insert_ticket_def split: option.splits)
    then show ?thesis using assms(1) False by (auto simp: spent_def)
  qed
qed

section \<open>What holds in general around the five divergences\<close>

text \<open>
  The corrupt transition writes \<open>version + 1\<close> of the caller's number into every row of the
  asset id, whatever version the row holds.
\<close>

lemma mark_corrupt_version:
  assumes "a \<in> set (mark_corrupt db_now assetId version rows)" "a_id a = assetId"
  shows "a_status a = corrupt \<and> a_version a = version + 1"
proof -
  let ?f = "\<lambda>r. r\<lparr>a_status := corrupt, a_version := version + 1, a_updated_at := db_now\<rparr>"
  from assms(1) have "a \<in> (\<lambda>r. if a_id r = assetId then ?f r else r) ` set rows"
    unfolding mark_corrupt_def update_where_def by simp
  then obtain r where r: "a = (if a_id r = assetId then ?f r else r)"
    by blast
  show ?thesis
  proof (cases "a_id r = assetId")
    case True
    with r show ?thesis by simp
  next
    case False
    with r assms(2) show ?thesis by simp
  qed
qed

text \<open>
  \<open>renameAsset\<close> does keep the guard: it succeeds on the one row of this id, owner and
  version, which it returns at \<open>version + 1\<close>; otherwise it fails with
  \<^verbatim>\<open>VERSION_CONFLICT\<close> and the state is as before.
\<close>

lemma renameAsset_guarded:
  assumes "getUser e token = Some user"
  shows "(\<exists>a0. filter (\<lambda>a. a_id a = assetId \<and> a_owner_id a = user \<and> a_version a = version)
                 (asset_tbl st) = [a0] \<and>
               a_version (row (projr (fst (renameAsset e st token db_now assetId filename version)))) =
                 a_version a0 + 1 \<and>
               isl (fst (renameAsset e st token db_now assetId filename version)) = False) \<or>
         renameAsset e st token db_now assetId filename version =
           (Inl (GraphQLError ''Version conflict or asset not found'' VERSION_CONFLICT), st)"
proof (cases "single (filter (\<lambda>a. a_id a = assetId \<and> a_owner_id a = user \<and> a_version a = version)
                 (asset_tbl st))")
  case None
  then show ?thesis using assms
    by (simp add: renameAsset_def getUserFromToken_def update_single_def)
next
  case (Some a0)
  then have f: "filter (\<lambda>a. a_id a = assetId \<and> a_owner_id a = user \<and> a_version a = version)
                 (asset_tbl st) = [a0]" by (simp add: single_Some)
  from filter_single_mem [OF f] have "a_version a0 = version" by simp
  then show ?thesis using assms Some f
    by (simp add: renameAsset_def getUserFromToken_def update_single_def)
qed

text \<open>\<open>deleteAsset\<close> has no outcome \<^verbatim>\<open>VERSION_CONFLICT\<close>, whatever the version.\<close>

lemma deleteAsset_never_conflict:
  "fst (deleteAsset e st token assetId version) \<noteq> Inl (GraphQLError m VERSION_CONFLICT)"
  by (simp add: deleteAsset_def getUserFromToken_def Let_def split: option.splits)

text \<open>When the caller owns one asset of the id, the blob goes, whatever the version.\<close>

lemma deleteAsset_removes_blob:
  assumes "getUser e token = Some user"
    and "filter (\<lambda>a. a_id a = assetId \<and> a_owner_id a = user) (asset_tbl st) = [a]"
  shows "fst (deleteAsset e st token assetId version) = Inr True \<and>
         bucket (snd (deleteAsset e st token assetId version)) (a_storage_path a) = None"
  using assms
  by (simp add: deleteAsset_def getUserFromToken_def Let_def delete_assets_def)

text \<open>
  The path of a successful \<open>createUploadUrl\<close>: owner, year, padded month, the uuid drawn in
  \<open>generateStoragePath\<close> and the sanitized filename; the asset id is the other uuid.
\<close>

lemma createUploadUrl_Inr:
  assumes "createUploadUrl e st token d filename mime fsize = (Inr u, st')"
  shows "\<exists>user. getUser e token = Some user \<and>
           u_assetId u = uuid_resolver d \<and>
           u_storagePath u =
             user @ ''/'' @ String_of (getFullYear (today d)) @ ''/'' @
             padStart 2 (CHR ''0'') (String_of (getMonth (today d) + 1)) @ ''/'' @
             uuid_path d @ ''-'' @ sanitizeFilename e filename"
  using assms
  by (auto simp: createUploadUrl_def getUserFromToken_def generateStoragePath_def Let_def
      split: sum.splits option.splits if_splits)

text \<open>An asset without a share row is out of reach of \<open>getDownloadUrl\<close> for every caller.\<close>

lemma getDownloadUrl_needs_share:
  assumes "getUser e token = Some user"
    and "filter (\<lambda>s. s_asset_id s = assetId) (asset_share_tbl st) = []"
  shows "getDownloadUrl e st token now db_now assetId =
           (Inl (GraphQLError ''Asset not found or access denied'' NOT_FOUND), st)"
proof -
  have "filter (\<lambda>a. a_id a = assetId \<and> accessible st user a \<and> a_status a = ready)
          (asset_tbl st) = []"
    using assms(2) by (auto simp: accessible_def list_ex_iff filter_empty_conv)
  then show ?thesis using assms(1) by (simp add: getDownloadUrl_def getUserFromToken_def)
qed

text \<open>
  The parts of the listing that hold: every asset of a page is the caller's, the page is
  no longer than the page size, and it is in descending order of creation time.
\<close>

lemma sorted_order_desc: "sorted (rev (map a_created_at (order_desc rows)))"
  by (simp add: order_desc_def rev_map [symmetric])

lemma set_order_desc: "set (order_desc rows) = set rows"
  by (simp add: order_desc_def)

lemma myAssets_page:
  assumes "myAssets e st token first_arg after q = Inr c"
  shows "\<exists>user. getUser e token = Some user \<and>
           list_all (\<lambda>ed. a_owner_id (row (node ed)) = user \<and> row (node ed) \<in> set (asset_tbl st))
             (edges c) \<and>
           length (edges c) \<le> (case first_arg of None \<Rightarrow> 50 | Some n \<Rightarrow> n) \<and>
           sorted (rev (map cursor (edges c)))"
proof (cases "getUser e token")
  case None
  then show ?thesis using assms by (simp add: myAssets_def getUserFromToken_def)
next
  case (Some user)
  define rows0 where "rows0 = filter (\<lambda>a. a_owner_id a = user) (asset_tbl st)"
  define rows1 where "rows1 = (case q of None \<Rightarrow> rows0
                       | Some s \<Rightarrow> if s = [] then rows0
                           else filter (\<lambda>a. ilike e (''%'' @ s @ ''%'') (a_filename a)) rows0)"
  define rows2 where "rows2 = (case after of None \<Rightarrow> rows1
                       | Some c \<Rightarrow> filter (\<lambda>a. a_created_at a > c) rows1)"
  define n where "n = (case first_arg of None \<Rightarrow> (50::nat) | Some n \<Rightarrow> n)"
  have e: "edges c = map (\<lambda>a. \<lparr>cursor = a_created_at a,
                              node = \<lparr>row = a, isOwner = True,
                                      canDownload = (a_status a = ready)\<rparr>\<rparr>)
                        (take n (order_desc rows2))"
    unfolding rows2_def rows1_def rows0_def n_def using assms Some
    by (auto simp: myAssets_def getUserFromToken_def Let_def)
  have s: "set rows2 \<subseteq> set rows0"
    by (auto simp: rows2_def rows1_def split: option.splits if_splits)
  have own: "\<forall>a \<in> set (take n (order_desc rows2)). a_owner_id a = user \<and> a \<in> set (asset_tbl st)"
  proof
    fix a assume "a \<in> set (take n (order_desc rows2))"
    then have "a \<in> set (order_desc rows2)" by (rule in_set_takeD)
    with s have "a \<in> set rows0" by (auto simp: set_order_desc)
    then show "a_owner_id a = user \<and> a \<in> set (asset_tbl st)" by (simp add: rows0_def)
  qed
  have m: "map cursor (edges c) = take n (map a_created_at (order_desc rows2))"
    by (simp add: e take_map comp_def)
  have "sorted (rev (map a_created_at (order_desc rows2)))" by (rule sorted_order_desc)
  then have "sorted (rev (take n (map a_created_at (order_desc rows2))))"
    by (metis append_take_drop_id rev_append sorted_append)
  then have srt: "sorted (rev (map cursor (edges c)))" by (simp add: m)
  have len: "length (edges c) \<le> n" by (simp add: e)
  from own have "list_all (\<lambda>ed. a_owner_id (row (node ed)) = user \<and> row (node ed) \<in> set (asset_tbl st))
             (edges c)"
    by (simp add: e list_all_iff)
  with Some len srt show ?thesis by (simp add: n_def)
qed

end
